theory Spec2Isabelle
  imports Main "HOL-Library.Word"
begin

section \<open>Scope and action resolvers of the access-control service\<close>

text \<open>
  The development embeds \<^verbatim>\<open>pkg/services/accesscontrol/resolvers.go\<close>: the registry
  \<^verbatim>\<open>Resolvers\<close>, its constructor, the two registration methods, the cache-aware scope
  mutator, the cache key and the action expansion.

  Conventions of the embedding.
  \<^item> Go's \<^verbatim>\<open>int64\<close> is \<open>64 word\<close>, read as two's complement with \<open>sint\<close>.
  \<^item> Go's \<^verbatim>\<open>string\<close> is a byte sequence, here \<open>string\<close> (a \<open>char list\<close>); a slice
    \<^verbatim>\<open>[]string\<close> is a \<open>string list\<close>, the nil slice and the empty slice both being \<open>[]\<close>.
  \<^item> A method with a pointer receiver takes the registry and returns the updated one.
  \<^item> A result pair \<^verbatim>\<open>([]string, error)\<close> is a sum: \<open>Inl\<close> the error (the code tests
    \<^verbatim>\<open>err != nil\<close> first and then ignores the slice), \<open>Inr\<close> the slice.
  \<^item> Everything a resolver may read or change outside the registry (storage, counters, the
    wall clock that advances while it runs) is the \<open>world\<close>, passed through every call.
  \<^item> An interface value stored for a scope prefix is an implementation, never Go's nil
    interface; the optional action resolver is an \<open>option\<close>, \<open>None\<close> being nil, because
    the code tests it.
  \<^item> A registry is one built by \<^verbatim>\<open>NewResolvers\<close> with a logger, so its logger, cache and
    map are allocated; the zero value of the struct, on whose nil fields the methods
    panic, is not a registry of the model. The cache is written by this file only, so what
    it holds is always a \<^verbatim>\<open>[]string\<close> and the type assertion after a hit succeeds.
  \<^item> A resolver acts on the world, not on the registry that invokes it.
\<close>

subsection \<open>Integers, durations and decimal formatting\<close>

type_synonym int64 = "64 word"

text \<open>\<^verbatim>\<open>time.Duration\<close> counts nanoseconds; the constants are those of Go's \<^verbatim>\<open>time\<close> package.
  They are compile-time constants, so their arithmetic is exact.\<close>

type_synonym Duration = int

definition Nanosecond :: Duration where
  "Nanosecond = 1"

definition Microsecond :: Duration where
  "Microsecond = 1000 * Nanosecond"

definition Millisecond :: Duration where
  "Millisecond = 1000 * Microsecond"

definition Second :: Duration where
  "Second = 1000 * Millisecond"

definition Minute :: Duration where
  "Minute = 60 * Second"

definition ttl :: Duration where
  "ttl = 30 * Second"

definition cleanInterval :: Duration where
  "cleanInterval = 2 * Minute"

text \<open>The verb \<^verbatim>\<open>%v\<close> of \<^verbatim>\<open>fmt.Sprintf\<close> prints an \<^verbatim>\<open>int64\<close> in base 10: the digits of
  the magnitude, most significant first, after a minus sign when the value is negative. A
  digit is read from the digit string, as \<^verbatim>\<open>strconv\<close> does, and only ever at an index
  below 10.\<close>

definition digit_char :: "nat \<Rightarrow> char" where
  "digit_char d = ''0123456789'' ! d"

fun format_uint :: "nat \<Rightarrow> string" where
  "format_uint n =
     (if n < 10 then [digit_char n]
      else format_uint (n div 10) @ [digit_char (n mod 10)])"

definition format_int64 :: "int64 \<Rightarrow> string" where
  "format_int64 i =
     (if sint i < 0 then CHR ''-'' # format_uint (nat (- sint i))
      else format_uint (nat (sint i)))"

text \<open>\<^verbatim>\<open>getScopeCacheKey\<close>: \<^verbatim>\<open>fmt.Sprintf("%s-%v", scope, orgID)\<close>.\<close>

definition getScopeCacheKey :: "int64 \<Rightarrow> string \<Rightarrow> string" where
  "getScopeCacheKey orgID scope = scope @ ''-'' @ format_int64 orgID"

subsection \<open>The world outside the registry\<close>

record 'x world =
  clock :: int
  outside :: 'x

subsection \<open>The local cache\<close>

text \<open>Modelled from the spec: the cache storage engine (\<^verbatim>\<open>localcache.CacheService\<close>) is an
  external collaborator, a key-value store with per-entry expiry. An entry holds the stored
  sequence and the instant, in nanoseconds, at which it expires. The periodic background
  eviction removes entries that a lookup already treats as absent, so it does not appear
  in the model beyond its interval.\<close>

record Item =
  Object :: "string list"
  Expiration :: int

record CacheService =
  defaultExpiration :: Duration
  cleanupInterval :: Duration
  items :: "string \<rightharpoonup> Item"

text \<open>Modelled from the spec: construction of the cache from the default time-to-live and the
  background cleanup interval; it starts empty.\<close>

definition localcache_New :: "Duration \<Rightarrow> Duration \<Rightarrow> CacheService" where
  "localcache_New d ci = \<lparr>defaultExpiration = d, cleanupInterval = ci, items = Map.empty\<rparr>"

text \<open>Modelled from the spec: the cache's get. An entry is found when it is present and not
  expired at the instant \<open>now\<close> of the lookup.\<close>

definition cache_Get :: "CacheService \<Rightarrow> int \<Rightarrow> string \<Rightarrow> string list option" where
  "cache_Get c now k =
     (case items c k of
        None \<Rightarrow> None
      | Some it \<Rightarrow> if Expiration it < now then None else Some (Object it))"

text \<open>Modelled from the spec: the cache's set-with-expiry. The entry expires the given
  time-to-live after the instant \<open>now\<close> of the write; an entry under the same key is replaced.\<close>

definition cache_Set :: "CacheService \<Rightarrow> int \<Rightarrow> string \<Rightarrow> string list \<Rightarrow> Duration \<Rightarrow> CacheService" where
  "cache_Set c now k v d = c\<lparr>items := (items c)(k \<mapsto> \<lparr>Object = v, Expiration = now + d\<rparr>)\<rparr>"

subsection \<open>The logger\<close>

text \<open>Modelled from the spec: the structured logger is an external collaborator that
  receives log lines made of a message and key/value pairs. The registry's \<^verbatim>\<open>log\<close> field
  is the sequence of lines received so far.\<close>

datatype field = Str string | Strs "string list"

type_synonym log_line = "string \<times> (string \<times> field) list"

definition Debug :: "log_line list \<Rightarrow> string \<Rightarrow> (string \<times> field) list \<Rightarrow> log_line list" where
  "Debug l msg kvs = l @ [(msg, kvs)]"

subsection \<open>Errors\<close>

text \<open>The two errors the scope mutator returns: the package's sentinel
  \<^verbatim>\<open>ErrResolverNotFound\<close>, and the value of
  \<^verbatim>\<open>fmt.Errorf("could not resolve %v: %w", scope, err)\<close>, which carries the scope it was
  formatted with and wraps the resolver's error \<open>err\<close>.\<close>

datatype 'e error = ErrResolverNotFound | CouldNotResolve string 'e

text \<open>\<^verbatim>\<open>errors.Unwrap\<close>: the error wrapped with \<^verbatim>\<open>%w\<close>, if any.\<close>

fun Unwrap :: "'e error \<Rightarrow> 'e option" where
  "Unwrap ErrResolverNotFound = None"
| "Unwrap (CouldNotResolve scope err) = Some err"

text \<open>The method \<^verbatim>\<open>Error()\<close> of the two errors. The text of the sentinel is declared elsewhere
  in the package, and the text of a resolver's error is the resolver's business: both are
  parameters.\<close>

fun Error_text :: "('e \<Rightarrow> string) \<Rightarrow> string \<Rightarrow> 'e error \<Rightarrow> string" where
  "Error_text inner not_found ErrResolverNotFound = not_found"
| "Error_text inner not_found (CouldNotResolve scope err) =
     ''could not resolve '' @ scope @ '': '' @ inner err"

subsection \<open>Resolver interfaces and the registry\<close>

text \<open>\<^verbatim>\<open>ScopeAttributeResolver.Resolve(ctx, orgID, scope)\<close>.\<close>

type_synonym ('c, 'x, 'e) ScopeAttributeResolver =
  "'c \<Rightarrow> int64 \<Rightarrow> string \<Rightarrow> 'x world \<Rightarrow> ('e + string list) \<times> 'x world"

text \<open>\<^verbatim>\<open>ActionResolver\<close>, with its three methods; \<open>'p\<close> is the package's \<^verbatim>\<open>Permission\<close>.\<close>

record ('x, 'p) ActionResolver =
  ResolveAction :: "string \<Rightarrow> 'x world \<Rightarrow> string list \<times> 'x world"
  ResolveActionSet :: "string \<Rightarrow> 'x world \<Rightarrow> string list \<times> 'x world"
  ExpandActionSets :: "'p list \<Rightarrow> 'x world \<Rightarrow> 'p list \<times> 'x world"

record ('c, 'x, 'e, 'p) Resolvers =
  log :: "log_line list"
  cache :: CacheService
  attributeResolvers :: "string \<rightharpoonup> ('c, 'x, 'e) ScopeAttributeResolver"
  actionResolver :: "('x, 'p) ActionResolver option"

definition NewResolvers :: "log_line list \<Rightarrow> ('c, 'x, 'e, 'p) Resolvers" where
  "NewResolvers l =
     \<lparr>log = l,
      cache = localcache_New ttl cleanInterval,
      attributeResolvers = Map.empty,
      actionResolver = None\<rparr>"

definition AddScopeAttributeResolver ::
  "('c, 'x, 'e, 'p) Resolvers \<Rightarrow> string \<Rightarrow> ('c, 'x, 'e) ScopeAttributeResolver
     \<Rightarrow> ('c, 'x, 'e, 'p) Resolvers" where
  "AddScopeAttributeResolver s prefix resolver =
     (let s1 = s\<lparr>log := Debug (log s) ''Adding scope attribute resolver'' [(''prefix'', Str prefix)]\<rparr>
      in s1\<lparr>attributeResolvers := (attributeResolvers s1)(prefix \<mapsto> resolver)\<rparr>)"

definition SetActionResolver ::
  "('c, 'x, 'e, 'p) Resolvers \<Rightarrow> ('x, 'p) ActionResolver option \<Rightarrow> ('c, 'x, 'e, 'p) Resolvers" where
  "SetActionResolver s resolver = s\<lparr>actionResolver := resolver\<rparr>"

text \<open>\<^verbatim>\<open>GetScopeAttributeMutator(orgID)\<close> applied to \<^verbatim>\<open>(ctx, scope)\<close>. The shared prefix rule
  \<^verbatim>\<open>ScopePrefix\<close> is declared elsewhere in the package and is a parameter here. The cache
  reads the clock when it is looked up and again, after the resolver has run, when it is
  written.\<close>

definition GetScopeAttributeMutator ::
  "(string \<Rightarrow> string) \<Rightarrow> ('c, 'x, 'e, 'p) Resolvers \<Rightarrow> int64 \<Rightarrow> 'c \<Rightarrow> string \<Rightarrow> 'x world
     \<Rightarrow> ('e error + string list) \<times> ('c, 'x, 'e, 'p) Resolvers \<times> 'x world" where
  "GetScopeAttributeMutator ScopePrefix s orgID ctx scope w =
     (let key = getScopeCacheKey orgID scope in
      case cache_Get (cache s) (clock w) key of
        Some scopes \<Rightarrow>
          (Inr scopes,
           s\<lparr>log := Debug (log s) ''Used cache to resolve scope''
                      [(''scope'', Str scope), (''resolved_scopes'', Strs scopes)]\<rparr>,
           w)
      | None \<Rightarrow>
          (let prefix = ScopePrefix scope in
           case attributeResolvers s prefix of
             Some resolver \<Rightarrow>
               (case resolver ctx orgID scope w of
                  (Inl err, w') \<Rightarrow> (Inl (CouldNotResolve scope err), s, w')
                | (Inr scopes, w') \<Rightarrow>
                    (let s1 = s\<lparr>cache := cache_Set (cache s) (clock w') key scopes ttl\<rparr>;
                         s2 = s1\<lparr>log := Debug (log s1) ''Resolved scope''
                                      [(''scope'', Str scope), (''resolved_scopes'', Strs scopes)]\<rparr>
                     in (Inr scopes, s2, w')))
           | None \<Rightarrow> (Inl ErrResolverNotFound, s, w)))"

text \<open>\<^verbatim>\<open>GetActionSetResolver()\<close> applied to \<^verbatim>\<open>(ctx, action)\<close>.\<close>

definition GetActionSetResolver ::
  "('c, 'x, 'e, 'p) Resolvers \<Rightarrow> 'c \<Rightarrow> string \<Rightarrow> 'x world
     \<Rightarrow> string list \<times> ('c, 'x, 'e, 'p) Resolvers \<times> 'x world" where
  "GetActionSetResolver s ctx action w =
     (case actionResolver s of
        None \<Rightarrow> ([action], s, w)
      | Some r \<Rightarrow>
          (case ResolveAction r action w of
             (actionSetActions, w') \<Rightarrow>
               (let actions = actionSetActions @ [action]
                in (actions,
                    s\<lparr>log := Debug (log s) ''Resolved action''
                               [(''action'', Str action), (''resolved_actions'', Strs actions)]\<rparr>,
                    w'))))"


subsection \<open>A concrete registry\<close>

text \<open>The scenario used to run the definitions: one resolver, registered for the prefix
  \<open>dashboards:id:\<close>, that knows dashboard 1 only; it counts its invocations in the world
  and takes five nanoseconds. A second resolver for the same prefix answers differently.
  The prefix rule of the scenario keeps the first fourteen bytes of a scope.\<close>

definition fixture_prefix :: "string \<Rightarrow> string" where
  "fixture_prefix scope = take 14 scope"

definition fixture_resolver :: "(unit, nat, string) ScopeAttributeResolver" where
  "fixture_resolver ctx orgID scope w =
     (if scope = ''dashboards:id:1''
      then (Inr [''dashboards:uid:abc'', ''folders:uid:xyz''],
            w\<lparr>clock := clock w + 5, outside := outside w + 1\<rparr>)
      else (Inl ''dashboard not found'',
            w\<lparr>clock := clock w + 5, outside := outside w + 1\<rparr>))"

definition fixture_resolver_B :: "(unit, nat, string) ScopeAttributeResolver" where
  "fixture_resolver_B ctx orgID scope w =
     (Inr [''dashboards:uid:b''], w\<lparr>clock := clock w + 5, outside := outside w + 100\<rparr>)"

definition fixture_registry :: "(unit, nat, string, unit) Resolvers" where
  "fixture_registry =
     AddScopeAttributeResolver (NewResolvers []) ''dashboards:id:'' fixture_resolver"

definition fixture_world :: "nat world" where
  "fixture_world = \<lparr>clock = 1000, outside = 0\<rparr>"

text \<open>The registry after dashboard 1 has been resolved once for organization 7, and the
  world at the last instant at which the entry written then is still valid.\<close>

definition fixture_registry_cached :: "(unit, nat, string, unit) Resolvers" where
  "fixture_registry_cached =
     fst (snd (GetScopeAttributeMutator fixture_prefix fixture_registry 7 ()
                 ''dashboards:id:1'' fixture_world))"

definition fixture_world_later :: "nat world" where
  "fixture_world_later = \<lparr>clock = 1005 + ttl, outside = 1\<rparr>"

text \<open>An action resolver: \<open>dashboards:read\<close> is implied by \<open>dashboards:view\<close>, the action
  \<open>dup\<close> resolves to itself, and every other action resolves to nothing.\<close>

definition fixture_action_resolver :: "(nat, unit) ActionResolver" where
  "fixture_action_resolver =
     \<lparr>ResolveAction = (\<lambda>action w.
          (if action = ''dashboards:read'' then [''dashboards:view'']
           else if action = ''dup'' then [''dup'']
           else [], w)),
      ResolveActionSet = (\<lambda>actionSet w. ([], w)),
      ExpandActionSets = (\<lambda>permissions w. (permissions, w))\<rparr>"

definition fixture_registry_actions :: "(unit, nat, string, unit) Resolvers" where
  "fixture_registry_actions = SetActionResolver fixture_registry (Some fixture_action_resolver)"

section \<open>Properties\<close>

subsection \<open>Decimal formatting\<close>

declare format_uint.simps [simp del]

lemma digit_char_inj: "a < 10 \<Longrightarrow> b < 10 \<Longrightarrow> digit_char a = digit_char b \<Longrightarrow> a = b"
proof -
  assume a: "a < 10" and b: "b < 10" and e: "digit_char a = digit_char b"
  have "distinct ''0123456789''" by simp
  moreover from a b have "a < length ''0123456789''" "b < length ''0123456789''" by simp_all
  ultimately show "a = b" using e unfolding digit_char_def
    by (simp only: nth_eq_iff_index_eq)
qed

lemma digit_char_not_dash: "d < 10 \<Longrightarrow> digit_char d \<noteq> CHR ''-''"
proof
  assume d: "d < 10" and e: "digit_char d = CHR ''-''"
  from d have "d < length ''0123456789''" by simp
  then have "''0123456789'' ! d \<in> set ''0123456789''" by (rule nth_mem)
  with e show False by (simp add: digit_char_def)
qed

lemma format_uint_nonempty: "format_uint n \<noteq> []"
  by (subst format_uint.simps) simp

lemma format_uint_no_dash: "CHR ''-'' \<notin> set (format_uint n)"
proof (induction n rule: format_uint.induct)
  case (1 n)
  show ?case
  proof (cases "n < 10")
    case True
    then show ?thesis using digit_char_not_dash [of n]
      by (subst format_uint.simps) auto
  next
    case False
    then show ?thesis using 1 digit_char_not_dash [of "n mod 10"]
      by (subst format_uint.simps) auto
  qed
qed

lemma format_uint_inj: "format_uint n = format_uint m \<Longrightarrow> n = m"
proof (induction n arbitrary: m rule: format_uint.induct)
  case (1 n)
  show ?case
  proof (cases "n < 10")
    case n: True
    show ?thesis
    proof (cases "m < 10")
      case True
      with n 1(2) show ?thesis
        by (simp add: format_uint.simps [of n] format_uint.simps [of m] digit_char_inj)
    next
      case False
      with n 1(2) show ?thesis
        using format_uint_nonempty [of "m div 10"]
        by (simp add: format_uint.simps [of n] format_uint.simps [of m])
    qed
  next
    case n: False
    show ?thesis
    proof (cases "m < 10")
      case True
      with n 1(2) show ?thesis
        using format_uint_nonempty [of "n div 10"]
        by (simp add: format_uint.simps [of n] format_uint.simps [of m])
    next
      case False
      with n 1(2) have e: "format_uint (n div 10) = format_uint (m div 10)"
        and d: "digit_char (n mod 10) = digit_char (m mod 10)"
        by (simp_all add: format_uint.simps [of n] format_uint.simps [of m])
      from 1(1) [OF n e] have "n div 10 = m div 10" .
      moreover from d have "n mod 10 = m mod 10" by (simp add: digit_char_inj)
      ultimately show ?thesis by (metis div_mult_mod_eq)
    qed
  qed
qed

text \<open>The minus sign that ends the scope part of a key is the last one before a run of
  characters without any.\<close>

lemma split_at_last_dash:
  "CHR ''-'' \<notin> set d1 \<Longrightarrow> CHR ''-'' \<notin> set d2 \<Longrightarrow>
   s1 @ CHR ''-'' # d1 = s2 @ CHR ''-'' # d2 \<Longrightarrow> s1 = s2 \<and> d1 = d2"
proof (induction s1 arbitrary: s2)
  case Nil
  then show ?case by (cases s2) auto
next
  case (Cons a s1)
  then show ?case by (cases s2) auto
qed

lemma format_int64_inj: "format_int64 a = format_int64 b \<Longrightarrow> a = b"
proof -
  assume e: "format_int64 a = format_int64 b"
  have hd_neg: "hd (format_uint n) \<noteq> CHR ''-''" for n
    using format_uint_no_dash [of n] format_uint_nonempty [of n]
    by (cases "format_uint n") auto
  have "sint a = sint b"
  proof (cases "sint a < 0")
    case a: True
    show ?thesis
    proof (cases "sint b < 0")
      case True
      with a e have "format_uint (nat (- sint a)) = format_uint (nat (- sint b))"
        by (simp add: format_int64_def)
      then have "nat (- sint a) = nat (- sint b)" by (rule format_uint_inj)
      with a True show ?thesis by simp
    next
      case False
      with a e have "CHR ''-'' # format_uint (nat (- sint a)) = format_uint (nat (sint b))"
        by (simp add: format_int64_def)
      then have "hd (format_uint (nat (sint b))) = CHR ''-''" by (metis list.sel(1))
      with hd_neg show ?thesis by blast
    qed
  next
    case a: False
    show ?thesis
    proof (cases "sint b < 0")
      case True
      with a e have "format_uint (nat (sint a)) = CHR ''-'' # format_uint (nat (- sint b))"
        by (simp add: format_int64_def)
      then have "hd (format_uint (nat (sint a))) = CHR ''-''" by (metis list.sel(1))
      with hd_neg show ?thesis by blast
    next
      case False
      with a e have "format_uint (nat (sint a)) = format_uint (nat (sint b))"
        by (simp add: format_int64_def)
      then have "nat (sint a) = nat (sint b)" by (rule format_uint_inj)
      with a False show ?thesis by simp
    qed
  qed
  then show "a = b" by (simp add: signed_word_eqI)
qed

lemma getScopeCacheKey_same_sign:
  assumes sg: "(sint o1 < 0) = (sint o2 < 0)"
    and k: "getScopeCacheKey o1 s1 = getScopeCacheKey o2 s2"
  shows "o1 = o2 \<and> s1 = s2"
proof (cases "sint o1 < 0")
  case True
  with sg have n2: "sint o2 < 0" by simp
  from k True n2 have
    "(s1 @ ''-'') @ CHR ''-'' # format_uint (nat (- sint o1)) =
     (s2 @ ''-'') @ CHR ''-'' # format_uint (nat (- sint o2))"
    by (simp add: getScopeCacheKey_def format_int64_def)
  then have "s1 @ ''-'' = s2 @ ''-'' \<and> format_uint (nat (- sint o1)) = format_uint (nat (- sint o2))"
    by (rule split_at_last_dash [OF format_uint_no_dash format_uint_no_dash])
  then have "s1 = s2" and "nat (- sint o1) = nat (- sint o2)"
    by (simp_all add: format_uint_inj)
  with True n2 have "sint o1 = sint o2" by simp
  then have "o1 = o2" by (simp add: signed_word_eqI)
  with \<open>s1 = s2\<close> show ?thesis by simp
next
  case False
  with sg have n2: "\<not> sint o2 < 0" by simp
  from k False n2 have
    "s1 @ CHR ''-'' # format_uint (nat (sint o1)) = s2 @ CHR ''-'' # format_uint (nat (sint o2))"
    by (simp add: getScopeCacheKey_def format_int64_def)
  then have "s1 = s2 \<and> format_uint (nat (sint o1)) = format_uint (nat (sint o2))"
    by (rule split_at_last_dash [OF format_uint_no_dash format_uint_no_dash])
  then have "s1 = s2" and "nat (sint o1) = nat (sint o2)"
    by (simp_all add: format_uint_inj)
  with False n2 have "sint o1 = sint o2" by simp
  then have "o1 = o2" by (simp add: signed_word_eqI)
  with \<open>s1 = s2\<close> show ?thesis by simp
qed

lemma getScopeCacheKey_same_scope:
  "getScopeCacheKey o1 s = getScopeCacheKey o2 s \<Longrightarrow> o1 = o2"
  by (simp add: getScopeCacheKey_def format_int64_inj)

text \<open>Across the two signs, two keys are equal exactly when the scope of the non-negative
  organization is the other scope followed by a minus sign and the two ids are opposite.\<close>

lemma getScopeCacheKey_mixed_sign:
  assumes p: "\<not> sint o1 < 0" and n: "sint o2 < 0"
  shows "getScopeCacheKey o1 s1 = getScopeCacheKey o2 s2
     \<longleftrightarrow> s1 = s2 @ ''-'' \<and> sint o1 = - sint o2"
proof
  assume "getScopeCacheKey o1 s1 = getScopeCacheKey o2 s2"
  with p n have
    "s1 @ CHR ''-'' # format_uint (nat (sint o1)) =
     (s2 @ ''-'') @ CHR ''-'' # format_uint (nat (- sint o2))"
    by (simp add: getScopeCacheKey_def format_int64_def)
  then have "s1 = s2 @ ''-'' \<and> format_uint (nat (sint o1)) = format_uint (nat (- sint o2))"
    by (rule split_at_last_dash [OF format_uint_no_dash format_uint_no_dash])
  then have "s1 = s2 @ ''-''" and "nat (sint o1) = nat (- sint o2)"
    by (simp_all add: format_uint_inj)
  with p n show "s1 = s2 @ ''-'' \<and> sint o1 = - sint o2" by simp
next
  assume "s1 = s2 @ ''-'' \<and> sint o1 = - sint o2"
  with p n show "getScopeCacheKey o1 s1 = getScopeCacheKey o2 s2"
    by (simp add: getScopeCacheKey_def format_int64_def)
qed

text \<open>Keys at concrete inputs, evaluated.\<close>

lemmas key_eval = getScopeCacheKey_def format_int64_def format_uint.simps digit_char_def

lemma getScopeCacheKey_example: "getScopeCacheKey 7 ''dashboards:id:1'' = ''dashboards:id:1-7''"
  by (simp add: key_eval)

lemma getScopeCacheKey_min_int64:
  "getScopeCacheKey (- 9223372036854775808) ''a'' = ''a--9223372036854775808''"
  by (simp add: key_eval)

text \<open>The pair the spec gives as an example of an ambiguous join is kept apart by the code.\<close>

lemma getScopeCacheKey_spec_example:
  "getScopeCacheKey 0 ''a-1'' = ''a-1-0'' \<and> getScopeCacheKey 1 ''a'' = ''a-1''"
  by (simp add: key_eval)

subsection \<open>C3: the cache key\<close>

text \<open>C3, as stated: the key is injective on all pairs of an \<^verbatim>\<open>int64\<close> organization id and a
  scope string. It is not: the minus sign of a negative organization id is the same
  character as the separator, so organization \<open>1\<close> with scope \<open>a-\<close> and organization \<open>-1\<close>
  with scope \<open>a\<close> are both given the key \<open>a--1\<close>.\<close>

theorem C3_key_collision:
  "getScopeCacheKey 1 ''a-'' = getScopeCacheKey (- 1) ''a''
   \<and> \<not> ((1 :: int64) = - 1 \<and> ''a-'' = ''a'')"
  by (simp add: key_eval)

text \<open>C3, amended: two equal keys come from the same organization id and the same scope
  whenever the two organization ids have the same sign (both negative or both
  non-negative, so in particular for all non-negative ids), or the two scopes are the
  same string (so one scope under two organizations never shares a key).\<close>

theorem C3_key_injective:
  assumes "(sint o1 < 0) = (sint o2 < 0) \<or> s1 = s2"
    and "getScopeCacheKey o1 s1 = getScopeCacheKey o2 s2"
  shows "o1 = o2 \<and> s1 = s2"
  using assms getScopeCacheKey_same_sign [of o1 o2 s1 s2] getScopeCacheKey_same_scope [of o1 s1 o2]
  by blast

theorem C3_key_injective_witness:
  "((sint (1 :: int64) < 0) = (sint (1 :: int64) < 0) \<or> ''dashboards:id:1'' = ''dashboards:id:1'')
   \<and> getScopeCacheKey 1 ''dashboards:id:1'' = getScopeCacheKey 1 ''dashboards:id:1''
   \<and> (1 :: int64) = 1 \<and> ''dashboards:id:1'' = ''dashboards:id:1''
   \<and> getScopeCacheKey 1 ''dashboards:id:1'' \<noteq> getScopeCacheKey 2 ''dashboards:id:1''
   \<and> getScopeCacheKey 1 ''dashboards:id:1'' \<noteq> getScopeCacheKey 1 ''dashboards:id:2''"
  using C3_key_injective [of 1 1 "''dashboards:id:1''" "''dashboards:id:1''"]
    C3_key_injective [of 1 2 "''dashboards:id:1''" "''dashboards:id:1''"]
    C3_key_injective [of 1 1 "''dashboards:id:1''" "''dashboards:id:2''"]
  by auto

subsection \<open>The cache\<close>

lemma ttl_value: "ttl = 30000000000"
  by (simp add: ttl_def Second_def Millisecond_def Microsecond_def Nanosecond_def)

lemma cleanInterval_value: "cleanInterval = 120000000000"
  by (simp add: cleanInterval_def Minute_def Second_def Millisecond_def Microsecond_def
      Nanosecond_def)

text \<open>A lookup that misses keeps missing as time passes: an absent entry stays absent and an
  expired one stays expired.\<close>

lemma cache_Get_miss_later:
  "cache_Get c t k = None \<Longrightarrow> t \<le> t' \<Longrightarrow> cache_Get c t' k = None"
  by (auto simp: cache_Get_def split: option.splits if_splits)

lemma cache_Get_Set_same:
  "t \<le> now + d \<Longrightarrow> cache_Get (cache_Set c now k v d) t k = Some v"
  by (simp add: cache_Get_def cache_Set_def)

lemma cache_Get_Set_expired:
  "now + d < t \<Longrightarrow> cache_Get (cache_Set c now k v d) t k = None"
  by (simp add: cache_Get_def cache_Set_def)

lemma items_cache_Set:
  "items (cache_Set c now k v d) = (items c)(k \<mapsto> \<lparr>Object = v, Expiration = now + d\<rparr>)"
  by (simp add: cache_Set_def)

subsection \<open>The four branches of the scope mutator\<close>

lemma mutator_hit:
  assumes "cache_Get (cache s) (clock w) (getScopeCacheKey orgID scope) = Some scopes"
  shows "GetScopeAttributeMutator sp s orgID ctx scope w =
     (Inr scopes,
      s\<lparr>log := Debug (log s) ''Used cache to resolve scope''
                 [(''scope'', Str scope), (''resolved_scopes'', Strs scopes)]\<rparr>,
      w)"
  using assms by (simp add: GetScopeAttributeMutator_def)

lemma mutator_no_resolver:
  assumes "cache_Get (cache s) (clock w) (getScopeCacheKey orgID scope) = None"
    and "attributeResolvers s (sp scope) = None"
  shows "GetScopeAttributeMutator sp s orgID ctx scope w = (Inl ErrResolverNotFound, s, w)"
  using assms by (simp add: GetScopeAttributeMutator_def)

lemma mutator_failed:
  assumes "cache_Get (cache s) (clock w) (getScopeCacheKey orgID scope) = None"
    and "attributeResolvers s (sp scope) = Some resolver"
    and "resolver ctx orgID scope w = (Inl err, w')"
  shows "GetScopeAttributeMutator sp s orgID ctx scope w =
     (Inl (CouldNotResolve scope err), s, w')"
  using assms by (simp add: GetScopeAttributeMutator_def)

lemma mutator_resolved:
  assumes "cache_Get (cache s) (clock w) (getScopeCacheKey orgID scope) = None"
    and "attributeResolvers s (sp scope) = Some resolver"
    and "resolver ctx orgID scope w = (Inr scopes, w')"
  shows "GetScopeAttributeMutator sp s orgID ctx scope w =
     (Inr scopes,
      s\<lparr>cache := cache_Set (cache s) (clock w') (getScopeCacheKey orgID scope) scopes ttl,
        log := Debug (log s) ''Resolved scope''
                 [(''scope'', Str scope), (''resolved_scopes'', Strs scopes)]\<rparr>,
      w')"
  using assms by (simp add: GetScopeAttributeMutator_def)

text \<open>On a cache miss with a registered resolver, the outcome and the world are those of one
  invocation of that resolver.\<close>

lemma mutator_miss:
  assumes "cache_Get (cache s) (clock w) (getScopeCacheKey orgID scope) = None"
    and "attributeResolvers s (sp scope) = Some resolver"
  shows "fst (GetScopeAttributeMutator sp s orgID ctx scope w) =
           map_sum (CouldNotResolve scope) id (fst (resolver ctx orgID scope w))
       \<and> snd (snd (GetScopeAttributeMutator sp s orgID ctx scope w)) =
           snd (resolver ctx orgID scope w)"
  using assms by (simp add: GetScopeAttributeMutator_def split: prod.splits sum.splits)

subsection \<open>The concrete registry, evaluated\<close>

lemmas fixture_eval =
  fixture_registry_def fixture_world_def fixture_resolver_def fixture_resolver_B_def
  fixture_prefix_def fixture_registry_cached_def fixture_world_later_def
  fixture_action_resolver_def fixture_registry_actions_def
  NewResolvers_def AddScopeAttributeResolver_def SetActionResolver_def localcache_New_def
  Debug_def GetScopeAttributeMutator_def cache_Get_def cache_Set_def ttl_value

lemma fixture_first_miss:
  "cache_Get (cache fixture_registry) (clock fixture_world)
     (getScopeCacheKey 7 ''dashboards:id:1'') = None"
  by (simp add: fixture_eval)

lemma fixture_registered:
  "attributeResolvers fixture_registry (fixture_prefix ''dashboards:id:1'') =
     Some fixture_resolver"
  by (simp add: fixture_eval)

lemma fixture_resolves:
  "fixture_resolver () 7 ''dashboards:id:1'' fixture_world =
     (Inr [''dashboards:uid:abc'', ''folders:uid:xyz''], \<lparr>clock = 1005, outside = 1\<rparr>)"
  by (simp add: fixture_eval)

lemma fixture_cached_hit:
  "cache_Get (cache fixture_registry_cached) (clock fixture_world_later)
     (getScopeCacheKey 7 ''dashboards:id:1'') =
   Some [''dashboards:uid:abc'', ''folders:uid:xyz'']"
  by (simp add: fixture_eval key_eval)

subsection \<open>C1: a cache hit\<close>

text \<open>C1: when the cache holds an unexpired entry for the key of the organization and the
  scope, the scope mutator returns the cached sequence and no error; the world is left as
  it was whatever resolvers are registered, so none of them has run; and the cache, like
  the rest of the registry (the log apart, which receives one line), is unchanged.\<close>

theorem C1_cache_hit:
  assumes "cache_Get (cache s) (clock w) (getScopeCacheKey orgID scope) = Some scopes"
  shows "case GetScopeAttributeMutator sp s orgID ctx scope w of
           (res, s', w') \<Rightarrow>
             res = Inr scopes \<and> w' = w \<and> cache s' = cache s
             \<and> attributeResolvers s' = attributeResolvers s
             \<and> actionResolver s' = actionResolver s"
  by (simp add: mutator_hit [OF assms])

theorem C1_cache_hit_witness:
  "cache_Get (cache fixture_registry_cached) (clock fixture_world_later)
     (getScopeCacheKey 7 ''dashboards:id:1'') =
   Some [''dashboards:uid:abc'', ''folders:uid:xyz'']
   \<and> (case GetScopeAttributeMutator fixture_prefix fixture_registry_cached 7 ()
              ''dashboards:id:1'' fixture_world_later of
         (res, s', w') \<Rightarrow>
           res = Inr [''dashboards:uid:abc'', ''folders:uid:xyz'']
           \<and> outside w' = 1 \<and> cache s' = cache fixture_registry_cached)"
proof -
  have hit: "cache_Get (cache fixture_registry_cached) (clock fixture_world_later)
      (getScopeCacheKey 7 ''dashboards:id:1'') =
    Some [''dashboards:uid:abc'', ''folders:uid:xyz'']"
    by (rule fixture_cached_hit)
  have "outside fixture_world_later = 1"
    by (simp add: fixture_world_later_def)
  with C1_cache_hit [OF hit, of fixture_prefix "()"] hit show ?thesis
    by (auto split: prod.splits)
qed

subsection \<open>C2: a cache miss that resolves\<close>

text \<open>C2: when the lookup misses, a resolver is registered for the prefix of the scope and
  that resolver succeeds, the scope mutator returns the resolver's sequence and leaves the
  resolver's world; the cache then holds exactly that sequence under the key of the
  organization and the scope, expiring \<open>ttl\<close>, that is 30 seconds, after the write; every
  other key is untouched; a lookup of the key finds the sequence up to that instant and
  nothing after it.\<close>

theorem C2_resolved_and_cached:
  assumes "cache_Get (cache s) (clock w) (getScopeCacheKey orgID scope) = None"
    and "attributeResolvers s (sp scope) = Some resolver"
    and "resolver ctx orgID scope w = (Inr scopes, w')"
  shows "case GetScopeAttributeMutator sp s orgID ctx scope w of
           (res, s', w'') \<Rightarrow>
             res = Inr scopes \<and> w'' = w'
             \<and> items (cache s') (getScopeCacheKey orgID scope) =
                 Some \<lparr>Object = scopes, Expiration = clock w' + ttl\<rparr>
             \<and> ttl = 30 * 1000000000
             \<and> (\<forall>k. k \<noteq> getScopeCacheKey orgID scope \<longrightarrow>
                    items (cache s') k = items (cache s) k)
             \<and> (\<forall>t. t \<le> clock w' + ttl \<longrightarrow>
                    cache_Get (cache s') t (getScopeCacheKey orgID scope) = Some scopes)
             \<and> (\<forall>t. clock w' + ttl < t \<longrightarrow>
                    cache_Get (cache s') t (getScopeCacheKey orgID scope) = None)"
  by (simp add: mutator_resolved [where sp = sp and resolver = resolver, OF assms]
      items_cache_Set cache_Get_Set_same cache_Get_Set_expired ttl_value)

theorem C2_resolved_and_cached_witness:
  "cache_Get (cache fixture_registry) (clock fixture_world)
     (getScopeCacheKey 7 ''dashboards:id:1'') = None
   \<and> attributeResolvers fixture_registry (fixture_prefix ''dashboards:id:1'') =
       Some fixture_resolver
   \<and> fixture_resolver () 7 ''dashboards:id:1'' fixture_world =
       (Inr [''dashboards:uid:abc'', ''folders:uid:xyz''], \<lparr>clock = 1005, outside = 1\<rparr>)
   \<and> (case GetScopeAttributeMutator fixture_prefix fixture_registry 7 ()
              ''dashboards:id:1'' fixture_world of
         (res, s', w'') \<Rightarrow>
           res = Inr [''dashboards:uid:abc'', ''folders:uid:xyz'']
           \<and> w'' = \<lparr>clock = 1005, outside = 1\<rparr>
           \<and> items (cache s') ''dashboards:id:1-7'' =
               Some \<lparr>Object = [''dashboards:uid:abc'', ''folders:uid:xyz''],
                     Expiration = 30000001005\<rparr>)"
proof -
  note C2_resolved_and_cached [where sp = fixture_prefix and resolver = fixture_resolver,
      OF fixture_first_miss fixture_registered fixture_resolves]
  then show ?thesis
    using fixture_first_miss fixture_registered fixture_resolves
    by (auto simp: getScopeCacheKey_example ttl_value split: prod.splits)
qed

subsection \<open>C4: no resolver for the prefix\<close>

text \<open>C4: when the lookup misses and no resolver is registered for the prefix of the scope,
  the scope mutator fails with \<open>ErrResolverNotFound\<close>; the registry, its cache included,
  and the world are exactly as before.\<close>

theorem C4_resolver_not_found:
  assumes "cache_Get (cache s) (clock w) (getScopeCacheKey orgID scope) = None"
    and "attributeResolvers s (sp scope) = None"
  shows "GetScopeAttributeMutator sp s orgID ctx scope w = (Inl ErrResolverNotFound, s, w)"
  using assms by (simp add: mutator_no_resolver [where sp = sp])

theorem C4_resolver_not_found_witness:
  "cache_Get (cache fixture_registry) (clock fixture_world)
     (getScopeCacheKey 7 ''folders:id:9'') = None
   \<and> attributeResolvers fixture_registry (fixture_prefix ''folders:id:9'') = None
   \<and> GetScopeAttributeMutator fixture_prefix fixture_registry 7 () ''folders:id:9''
       fixture_world = (Inl ErrResolverNotFound, fixture_registry, fixture_world)"
proof -
  have miss: "cache_Get (cache fixture_registry) (clock fixture_world)
      (getScopeCacheKey 7 ''folders:id:9'') = None"
    by (simp add: fixture_eval)
  have unreg: "attributeResolvers fixture_registry (fixture_prefix ''folders:id:9'') = None"
    by (simp add: fixture_eval)
  from miss unreg
    C4_resolver_not_found [where sp = fixture_prefix and ctx = "()", OF miss unreg]
  show ?thesis
    by (intro conjI)
qed

subsection \<open>C5: a resolver that fails\<close>

text \<open>C5: when the lookup misses and the resolver registered for the prefix returns an
  error, the scope mutator returns the error built from the scope and the resolver's
  error: unwrapping it gives the resolver's error, and its text names the scope. The
  registry, its cache included, is exactly as before. A later call for the same
  organization and scope, at any instant that is not earlier, runs the resolver again: its
  outcome and its world are those of a fresh invocation.\<close>

theorem C5_resolver_failure:
  assumes "cache_Get (cache s) (clock w) (getScopeCacheKey orgID scope) = None"
    and "attributeResolvers s (sp scope) = Some resolver"
    and "resolver ctx orgID scope w = (Inl err, w')"
  shows "case GetScopeAttributeMutator sp s orgID ctx scope w of
           (res, s', w'') \<Rightarrow>
             res = Inl (CouldNotResolve scope err)
             \<and> Unwrap (CouldNotResolve scope err) = Some err
             \<and> Error_text inner not_found (CouldNotResolve scope err) =
                 ''could not resolve '' @ scope @ '': '' @ inner err
             \<and> s' = s \<and> w'' = w'
             \<and> (\<forall>w2. clock w \<le> clock w2 \<longrightarrow>
                  fst (GetScopeAttributeMutator sp s' orgID ctx scope w2) =
                    map_sum (CouldNotResolve scope) id (fst (resolver ctx orgID scope w2))
                  \<and> snd (snd (GetScopeAttributeMutator sp s' orgID ctx scope w2)) =
                    snd (resolver ctx orgID scope w2))"
proof -
  have again: "fst (GetScopeAttributeMutator sp s orgID ctx scope w2) =
        map_sum (CouldNotResolve scope) id (fst (resolver ctx orgID scope w2))
      \<and> snd (snd (GetScopeAttributeMutator sp s orgID ctx scope w2)) =
        snd (resolver ctx orgID scope w2)"
    if "clock w \<le> clock w2" for w2
    using cache_Get_miss_later [OF assms(1) that] assms(2)
    by (simp add: mutator_miss [where sp = sp and resolver = resolver])
  show ?thesis
    by (simp add: mutator_failed [where sp = sp and resolver = resolver, OF assms] again)
qed

theorem C5_resolver_failure_witness:
  "cache_Get (cache fixture_registry) (clock fixture_world)
     (getScopeCacheKey 7 ''dashboards:id:2'') = None
   \<and> attributeResolvers fixture_registry (fixture_prefix ''dashboards:id:2'') =
       Some fixture_resolver
   \<and> fixture_resolver () 7 ''dashboards:id:2'' fixture_world =
       (Inl ''dashboard not found'', \<lparr>clock = 1005, outside = 1\<rparr>)
   \<and> (case GetScopeAttributeMutator fixture_prefix fixture_registry 7 ()
              ''dashboards:id:2'' fixture_world of
         (res, s', w'') \<Rightarrow>
           res = Inl (CouldNotResolve ''dashboards:id:2'' ''dashboard not found'')
           \<and> s' = fixture_registry
           \<and> outside w'' = 1
           \<and> outside (snd (snd (GetScopeAttributeMutator fixture_prefix s' 7 ()
                                   ''dashboards:id:2'' w''))) = 2)"
proof -
  have miss: "cache_Get (cache fixture_registry) (clock fixture_world)
      (getScopeCacheKey 7 ''dashboards:id:2'') = None"
    by (simp add: fixture_eval)
  have reg: "attributeResolvers fixture_registry (fixture_prefix ''dashboards:id:2'') =
      Some fixture_resolver"
    by (simp add: fixture_eval)
  have fails: "fixture_resolver () 7 ''dashboards:id:2'' fixture_world =
      (Inl ''dashboard not found'', \<lparr>clock = 1005, outside = 1\<rparr>)"
    by (simp add: fixture_eval)
  have later: "clock fixture_world \<le> clock \<lparr>clock = 1005, outside = 1::nat\<rparr>"
    by (simp add: fixture_world_def)
  have second: "outside (snd (fixture_resolver () 7 ''dashboards:id:2''
      \<lparr>clock = 1005, outside = 1\<rparr>)) = 2"
    by (simp add: fixture_resolver_def)
  from C5_resolver_failure [where sp = fixture_prefix and resolver = fixture_resolver,
      OF miss reg fails] later second miss reg fails
  show ?thesis
    by (auto split: prod.splits)
qed


subsection \<open>C6: action expansion\<close>

lemma action_none:
  "actionResolver s = None \<Longrightarrow> GetActionSetResolver s ctx action w = ([action], s, w)"
  by (simp add: GetActionSetResolver_def)

lemma action_some:
  assumes "actionResolver s = Some r" and "ResolveAction r action w = (xs, w')"
  shows "GetActionSetResolver s ctx action w =
     (xs @ [action],
      s\<lparr>log := Debug (log s) ''Resolved action''
                 [(''action'', Str action), (''resolved_actions'', Strs (xs @ [action]))]\<rparr>,
      w')"
  using assms by (simp add: GetActionSetResolver_def Let_def)

text \<open>C6: with no action resolver installed, the action expansion returns the one-element
  sequence of the action and changes nothing. With one installed, it returns what
  \<open>ResolveAction\<close> returned followed by the action, which comes last: one element more
  than the resolver gave, whether or not the action or anything else is repeated.\<close>

theorem C6_action_expansion:
  "(actionResolver s = None \<longrightarrow> GetActionSetResolver s ctx action w = ([action], s, w))
   \<and> (\<forall>r xs w'. actionResolver s = Some r \<and> ResolveAction r action w = (xs, w') \<longrightarrow>
          fst (GetActionSetResolver s ctx action w) = xs @ [action]
          \<and> length (fst (GetActionSetResolver s ctx action w)) = Suc (length xs)
          \<and> snd (snd (GetActionSetResolver s ctx action w)) = w')"
  by (simp add: action_none action_some)

theorem C6_action_expansion_witness:
  "actionResolver fixture_registry = None
   \<and> GetActionSetResolver fixture_registry () ''dashboards:read'' fixture_world =
       ([''dashboards:read''], fixture_registry, fixture_world)
   \<and> actionResolver fixture_registry_actions = Some fixture_action_resolver
   \<and> ResolveAction fixture_action_resolver ''dashboards:read'' fixture_world =
       ([''dashboards:view''], fixture_world)
   \<and> fst (GetActionSetResolver fixture_registry_actions () ''dashboards:read'' fixture_world) =
       [''dashboards:view'', ''dashboards:read'']
   \<and> ResolveAction fixture_action_resolver ''dup'' fixture_world = ([''dup''], fixture_world)
   \<and> fst (GetActionSetResolver fixture_registry_actions () ''dup'' fixture_world) =
       [''dup'', ''dup'']"
proof -
  have none: "actionResolver fixture_registry = None"
    by (simp add: fixture_eval)
  have some: "actionResolver fixture_registry_actions = Some fixture_action_resolver"
    by (simp add: fixture_registry_actions_def SetActionResolver_def)
  have view: "ResolveAction fixture_action_resolver ''dashboards:read'' fixture_world =
      ([''dashboards:view''], fixture_world)"
    by (simp add: fixture_action_resolver_def)
  have dup: "ResolveAction fixture_action_resolver ''dup'' fixture_world =
      ([''dup''], fixture_world)"
    by (simp add: fixture_action_resolver_def)
  from C6_action_expansion [of fixture_registry "()" "''dashboards:read''" fixture_world]
    C6_action_expansion [of fixture_registry_actions "()" "''dashboards:read''" fixture_world]
    C6_action_expansion [of fixture_registry_actions "()" "''dup''" fixture_world]
    none some view dup
  show ?thesis by auto
qed

subsection \<open>C10: the action itself comes last\<close>

text \<open>C10: whatever action resolver is installed, or none, the action expansion returns a
  non-empty sequence whose last element is the action; when the installed resolver returns
  the empty sequence for the action, the sequence returned is the action alone, the same
  sequence as with the action resolver taken out. (On that path the logger receives a line
  that it does not receive when no resolver is installed.)\<close>

theorem C10_action_last:
  "fst (GetActionSetResolver s ctx action w) \<noteq> []
   \<and> last (fst (GetActionSetResolver s ctx action w)) = action
   \<and> (\<forall>r w'. actionResolver s = Some r \<and> ResolveAction r action w = ([], w') \<longrightarrow>
          fst (GetActionSetResolver s ctx action w) = [action]
          \<and> fst (GetActionSetResolver s ctx action w) =
              fst (GetActionSetResolver (SetActionResolver s None) ctx action w))"
proof (cases "actionResolver s")
  case None
  then show ?thesis by (simp add: action_none)
next
  case (Some r)
  obtain xs w' where r: "ResolveAction r action w = (xs, w')"
    by (cases "ResolveAction r action w")
  have "actionResolver (SetActionResolver s None) = None"
    by (simp add: SetActionResolver_def)
  then have "GetActionSetResolver (SetActionResolver s None) ctx action w =
      ([action], SetActionResolver s None, w)"
    by (rule action_none)
  with Some r show ?thesis by (simp add: action_some)
qed

theorem C10_action_last_witness:
  "actionResolver fixture_registry_actions = Some fixture_action_resolver
   \<and> ResolveAction fixture_action_resolver ''teams:read'' fixture_world = ([], fixture_world)
   \<and> fst (GetActionSetResolver fixture_registry_actions () ''teams:read'' fixture_world) =
       [''teams:read'']
   \<and> fst (GetActionSetResolver (SetActionResolver fixture_registry_actions None) ()
             ''teams:read'' fixture_world) = [''teams:read'']
   \<and> last (fst (GetActionSetResolver fixture_registry_actions () ''dashboards:read''
                   fixture_world)) = ''dashboards:read''"
proof -
  have some: "actionResolver fixture_registry_actions = Some fixture_action_resolver"
    by (simp add: fixture_registry_actions_def SetActionResolver_def)
  have gives_none: "ResolveAction fixture_action_resolver ''teams:read'' fixture_world =
      ([], fixture_world)"
    by (simp add: fixture_action_resolver_def)
  from C10_action_last [of fixture_registry_actions "()" "''teams:read''" fixture_world]
    some gives_none
  have alone: "fst (GetActionSetResolver fixture_registry_actions () ''teams:read''
        fixture_world) = [''teams:read'']
      \<and> fst (GetActionSetResolver fixture_registry_actions () ''teams:read'' fixture_world) =
        fst (GetActionSetResolver (SetActionResolver fixture_registry_actions None) ()
               ''teams:read'' fixture_world)"
    by blast
  from C10_action_last [of fixture_registry_actions "()" "''dashboards:read''" fixture_world]
  have "last (fst (GetActionSetResolver fixture_registry_actions () ''dashboards:read''
      fixture_world)) = ''dashboards:read''"
    by blast
  with alone some gives_none show ?thesis by auto
qed

subsection \<open>C7: registration\<close>

lemma attributeResolvers_Add:
  "attributeResolvers (AddScopeAttributeResolver s prefix r) =
     (attributeResolvers s)(prefix \<mapsto> r)"
  by (simp add: AddScopeAttributeResolver_def)

lemma cache_Add: "cache (AddScopeAttributeResolver s prefix r) = cache s"
  by (simp add: AddScopeAttributeResolver_def)

text \<open>C7, as stated: after \<open>a\<close> and then \<open>b\<close> have been registered for one prefix, scope
  resolution for that prefix uses only \<open>b\<close>. It does not when the cache still holds an
  unexpired entry: registration leaves the cache alone and the scope mutator serves a hit
  before it reads the map. Here the first resolver is registered and resolves dashboard 1
  for organization 7, the second resolver is then registered for the same prefix, and the
  next call within the time-to-live returns the first resolver's sequence; the second
  resolver, which would have answered differently and added 100 to the counter, has not
  run.\<close>

theorem C7_cached_result_survives:
  "attributeResolvers
     (AddScopeAttributeResolver fixture_registry_cached ''dashboards:id:'' fixture_resolver_B)
     (fixture_prefix ''dashboards:id:1'') = Some fixture_resolver_B
   \<and> GetScopeAttributeMutator fixture_prefix fixture_registry 7 () ''dashboards:id:1''
       fixture_world =
       (Inr [''dashboards:uid:abc'', ''folders:uid:xyz''], fixture_registry_cached,
        \<lparr>clock = 1005, outside = 1\<rparr>)
   \<and> fst (GetScopeAttributeMutator fixture_prefix
            (AddScopeAttributeResolver fixture_registry_cached ''dashboards:id:''
               fixture_resolver_B)
            7 () ''dashboards:id:1'' fixture_world_later) =
       Inr [''dashboards:uid:abc'', ''folders:uid:xyz'']
   \<and> snd (snd (GetScopeAttributeMutator fixture_prefix
            (AddScopeAttributeResolver fixture_registry_cached ''dashboards:id:''
               fixture_resolver_B)
            7 () ''dashboards:id:1'' fixture_world_later)) = fixture_world_later
   \<and> fixture_resolver_B () 7 ''dashboards:id:1'' fixture_world_later =
       (Inr [''dashboards:uid:b''], \<lparr>clock = 1010 + ttl, outside = 101\<rparr>)
   \<and> fst (GetScopeAttributeMutator fixture_prefix
            (AddScopeAttributeResolver fixture_registry_cached ''dashboards:id:''
               fixture_resolver_B)
            7 () ''dashboards:id:1'' fixture_world_later) \<noteq>
       map_sum (CouldNotResolve ''dashboards:id:1'') id
         (fst (fixture_resolver_B () 7 ''dashboards:id:1'' fixture_world_later))"
proof -
  let ?s = "AddScopeAttributeResolver fixture_registry_cached ''dashboards:id:''
      fixture_resolver_B"
  have reg: "attributeResolvers ?s (fixture_prefix ''dashboards:id:1'') =
      Some fixture_resolver_B"
    by (simp add: attributeResolvers_Add fixture_prefix_def)
  have first: "GetScopeAttributeMutator fixture_prefix fixture_registry 7 ()
      ''dashboards:id:1'' fixture_world =
      (Inr [''dashboards:uid:abc'', ''folders:uid:xyz''], fixture_registry_cached,
       \<lparr>clock = 1005, outside = 1\<rparr>)"
    unfolding fixture_registry_cached_def
    using mutator_resolved [where sp = fixture_prefix and resolver = fixture_resolver,
        OF fixture_first_miss fixture_registered fixture_resolves]
    by simp
  have "cache_Get (cache ?s) (clock fixture_world_later)
      (getScopeCacheKey 7 ''dashboards:id:1'') =
      Some [''dashboards:uid:abc'', ''folders:uid:xyz'']"
    by (simp add: cache_Add fixture_cached_hit)
  then have second: "GetScopeAttributeMutator fixture_prefix ?s 7 () ''dashboards:id:1''
      fixture_world_later =
      (Inr [''dashboards:uid:abc'', ''folders:uid:xyz''],
       ?s\<lparr>log := Debug (log ?s) ''Used cache to resolve scope''
                  [(''scope'', Str ''dashboards:id:1''),
                   (''resolved_scopes'', Strs [''dashboards:uid:abc'', ''folders:uid:xyz''])]\<rparr>,
       fixture_world_later)"
    by (rule mutator_hit)
  have b: "fixture_resolver_B () 7 ''dashboards:id:1'' fixture_world_later =
      (Inr [''dashboards:uid:b''], \<lparr>clock = 1010 + ttl, outside = 101\<rparr>)"
    by (simp add: fixture_resolver_B_def fixture_world_later_def)
  from reg first second b show ?thesis by simp
qed

text \<open>C7, amended: registration has no failing outcome and accepts every prefix, the empty
  one included: afterwards the prefix is mapped to the resolver just registered and every
  other prefix is as before, so the set of registered prefixes grows by that prefix at
  most; the cache and the action resolver are untouched. Registering \<open>a\<close> and then \<open>b\<close>
  for one prefix leaves the very mapping that registering \<open>b\<close> alone leaves. A scope of
  that prefix whose lookup misses is then resolved by one invocation of \<open>b\<close>, and never
  by \<open>a\<close>; a scope whose lookup hits is answered from the cache, with no resolver run,
  whichever resolver wrote the entry.\<close>

theorem C7_last_registration_wins:
  "attributeResolvers (AddScopeAttributeResolver s prefix r) prefix = Some r
   \<and> (\<forall>p. p \<noteq> prefix \<longrightarrow>
          attributeResolvers (AddScopeAttributeResolver s prefix r) p = attributeResolvers s p)
   \<and> dom (attributeResolvers (AddScopeAttributeResolver s prefix r)) =
       insert prefix (dom (attributeResolvers s))
   \<and> cache (AddScopeAttributeResolver s prefix r) = cache s
   \<and> actionResolver (AddScopeAttributeResolver s prefix r) = actionResolver s
   \<and> attributeResolvers (AddScopeAttributeResolver (AddScopeAttributeResolver s prefix a) prefix b) =
       attributeResolvers (AddScopeAttributeResolver s prefix b)
   \<and> (\<forall>orgID ctx scope w.
          sp scope = prefix
          \<and> cache_Get (cache s) (clock w) (getScopeCacheKey orgID scope) = None \<longrightarrow>
          fst (GetScopeAttributeMutator sp
                 (AddScopeAttributeResolver (AddScopeAttributeResolver s prefix a) prefix b)
                 orgID ctx scope w) =
            map_sum (CouldNotResolve scope) id (fst (b ctx orgID scope w))
          \<and> snd (snd (GetScopeAttributeMutator sp
                 (AddScopeAttributeResolver (AddScopeAttributeResolver s prefix a) prefix b)
                 orgID ctx scope w)) =
            snd (b ctx orgID scope w))
   \<and> (\<forall>orgID ctx scope w scopes.
          cache_Get (cache s) (clock w) (getScopeCacheKey orgID scope) = Some scopes \<longrightarrow>
          fst (GetScopeAttributeMutator sp
                 (AddScopeAttributeResolver (AddScopeAttributeResolver s prefix a) prefix b)
                 orgID ctx scope w) = Inr scopes
          \<and> snd (snd (GetScopeAttributeMutator sp
                 (AddScopeAttributeResolver (AddScopeAttributeResolver s prefix a) prefix b)
                 orgID ctx scope w)) = w)"
proof -
  let ?s2 = "AddScopeAttributeResolver (AddScopeAttributeResolver s prefix a) prefix b"
  have from_cache: "fst (GetScopeAttributeMutator sp ?s2 orgID ctx scope w) = Inr scopes
      \<and> snd (snd (GetScopeAttributeMutator sp ?s2 orgID ctx scope w)) = w"
    if hit: "cache_Get (cache s) (clock w) (getScopeCacheKey orgID scope) = Some scopes"
    for orgID ctx scope w scopes
  proof -
    from hit have
      "cache_Get (cache ?s2) (clock w) (getScopeCacheKey orgID scope) = Some scopes"
      by (simp add: cache_Add)
    then show ?thesis by (simp add: mutator_hit)
  qed
  have uses_b: "fst (GetScopeAttributeMutator sp ?s2 orgID ctx scope w) =
        map_sum (CouldNotResolve scope) id (fst (b ctx orgID scope w))
      \<and> snd (snd (GetScopeAttributeMutator sp ?s2 orgID ctx scope w)) =
        snd (b ctx orgID scope w)"
    if p: "sp scope = prefix"
      and miss: "cache_Get (cache s) (clock w) (getScopeCacheKey orgID scope) = None"
    for orgID ctx scope w
  proof -
    from miss have "cache_Get (cache ?s2) (clock w) (getScopeCacheKey orgID scope) = None"
      by (simp add: cache_Add)
    moreover from p have "attributeResolvers ?s2 (sp scope) = Some b"
      by (simp add: attributeResolvers_Add)
    ultimately show ?thesis
      by (simp add: mutator_miss [where sp = sp and resolver = b])
  qed
  have "actionResolver (AddScopeAttributeResolver s prefix r) = actionResolver s"
    by (simp add: AddScopeAttributeResolver_def)
  then show ?thesis
    using uses_b from_cache by (simp add: attributeResolvers_Add cache_Add)
qed

theorem C7_last_registration_wins_witness:
  "fixture_prefix ''dashboards:id:1'' = ''dashboards:id:''
   \<and> cache_Get (cache (NewResolvers [] :: (unit, nat, string, unit) Resolvers))
        (clock fixture_world) (getScopeCacheKey 7 ''dashboards:id:1'') = None
   \<and> fst (GetScopeAttributeMutator fixture_prefix
            (AddScopeAttributeResolver fixture_registry ''dashboards:id:'' fixture_resolver_B)
            7 () ''dashboards:id:1'' fixture_world) = Inr [''dashboards:uid:b'']
   \<and> outside (snd (snd (GetScopeAttributeMutator fixture_prefix
            (AddScopeAttributeResolver fixture_registry ''dashboards:id:'' fixture_resolver_B)
            7 () ''dashboards:id:1'' fixture_world))) = 100"
proof -
  have p: "fixture_prefix ''dashboards:id:1'' = ''dashboards:id:''"
    by (simp add: fixture_prefix_def)
  have miss: "cache_Get (cache (NewResolvers [] :: (unit, nat, string, unit) Resolvers))
      (clock fixture_world) (getScopeCacheKey 7 ''dashboards:id:1'') = None"
    by (simp add: NewResolvers_def localcache_New_def cache_Get_def)
  have b: "fixture_resolver_B () 7 ''dashboards:id:1'' fixture_world =
      (Inr [''dashboards:uid:b''], \<lparr>clock = 1005, outside = 100\<rparr>)"
    by (simp add: fixture_resolver_B_def fixture_world_def)
  let ?s2 = "AddScopeAttributeResolver fixture_registry ''dashboards:id:'' fixture_resolver_B"
  from C7_last_registration_wins
      [where s = "NewResolvers [] :: (unit, nat, string, unit) Resolvers"
        and prefix = "''dashboards:id:''" and r = fixture_resolver
        and a = fixture_resolver and b = fixture_resolver_B and sp = fixture_prefix]
    p miss
  have "fst (GetScopeAttributeMutator fixture_prefix ?s2 7 () ''dashboards:id:1'' fixture_world) =
        map_sum (CouldNotResolve ''dashboards:id:1'') id
          (fst (fixture_resolver_B () 7 ''dashboards:id:1'' fixture_world))
      \<and> snd (snd (GetScopeAttributeMutator fixture_prefix ?s2 7 () ''dashboards:id:1''
                     fixture_world)) =
        snd (fixture_resolver_B () 7 ''dashboards:id:1'' fixture_world)"
    unfolding fixture_registry_def by blast
  with p miss b show ?thesis by simp
qed

subsection \<open>C9: the cache constants\<close>

text \<open>C9: the time-to-live is 30 seconds and the cleanup interval 2 minutes, in
  nanoseconds, so the cleanup interval is the longer; the cache of a registry made by
  \<open>NewResolvers\<close> is built with the two; and whenever a call of the scope mutator changes
  what the cache holds under a key, the entry it leaves there expires \<open>ttl\<close> after the
  instant of the write, the cache's two parameters staying as they were.\<close>

theorem C9_cache_constants:
  "ttl = 30 * 1000000000
   \<and> cleanInterval = 2 * (60 * 1000000000)
   \<and> ttl < cleanInterval
   \<and> defaultExpiration (cache (NewResolvers l)) = ttl
   \<and> cleanupInterval (cache (NewResolvers l)) = cleanInterval
   \<and> (case GetScopeAttributeMutator sp s orgID ctx scope w of
        (res, s', w') \<Rightarrow>
          defaultExpiration (cache s') = defaultExpiration (cache s)
          \<and> cleanupInterval (cache s') = cleanupInterval (cache s)
          \<and> (\<forall>k. items (cache s') k \<noteq> items (cache s) k \<longrightarrow>
                 (\<exists>v. items (cache s') k = Some \<lparr>Object = v, Expiration = clock w' + ttl\<rparr>)))"
proof -
  have "case GetScopeAttributeMutator sp s orgID ctx scope w of
        (res, s', w') \<Rightarrow>
          defaultExpiration (cache s') = defaultExpiration (cache s)
          \<and> cleanupInterval (cache s') = cleanupInterval (cache s)
          \<and> (\<forall>k. items (cache s') k \<noteq> items (cache s) k \<longrightarrow>
                 (\<exists>v. items (cache s') k = Some \<lparr>Object = v, Expiration = clock w' + ttl\<rparr>))"
  proof (cases "cache_Get (cache s) (clock w) (getScopeCacheKey orgID scope)")
    case (Some scopes)
    then show ?thesis by (simp add: mutator_hit)
  next
    case miss: None
    show ?thesis
    proof (cases "attributeResolvers s (sp scope)")
      case None
      with miss show ?thesis by (simp add: mutator_no_resolver [where sp = sp])
    next
      case (Some resolver)
      obtain out w' where r: "resolver ctx orgID scope w = (out, w')"
        by (cases "resolver ctx orgID scope w")
      show ?thesis
      proof (cases out)
        case (Inl err)
        with miss Some r show ?thesis
          by (simp add: mutator_failed [where sp = sp and resolver = resolver])
      next
        case (Inr scopes)
        with miss Some r show ?thesis
          by (simp add: mutator_resolved [where sp = sp and resolver = resolver]
              cache_Set_def)
      qed
    qed
  qed
  then show ?thesis
    by (simp add: ttl_value cleanInterval_value NewResolvers_def localcache_New_def)
qed

theorem C9_cache_constants_witness:
  "(case GetScopeAttributeMutator fixture_prefix fixture_registry 7 () ''dashboards:id:1''
           fixture_world of
      (res, s', w') \<Rightarrow>
        items (cache s') ''dashboards:id:1-7'' \<noteq> items (cache fixture_registry) ''dashboards:id:1-7''
        \<and> (\<exists>v. items (cache s') ''dashboards:id:1-7'' =
                  Some \<lparr>Object = v, Expiration = clock w' + ttl\<rparr>))"
proof -
  obtain res s' w' where m: "GetScopeAttributeMutator fixture_prefix fixture_registry 7 ()
      ''dashboards:id:1'' fixture_world = (res, s', w')"
    by (cases "GetScopeAttributeMutator fixture_prefix fixture_registry 7 ()
      ''dashboards:id:1'' fixture_world")
  have before: "items (cache fixture_registry) ''dashboards:id:1-7'' = None"
    by (simp add: fixture_eval)
  have "items (cache (fst (snd (GetScopeAttributeMutator fixture_prefix fixture_registry
      7 () ''dashboards:id:1'' fixture_world)))) ''dashboards:id:1-7'' \<noteq> None"
    by (simp add: fixture_eval key_eval)
  with m before have changed:
    "items (cache s') ''dashboards:id:1-7'' \<noteq> items (cache fixture_registry) ''dashboards:id:1-7''"
    by simp
  from C9_cache_constants [where sp = fixture_prefix and s = fixture_registry and orgID = 7
      and ctx = "()" and scope = "''dashboards:id:1''" and w = fixture_world and l = "[]"] m
  have "\<forall>k. items (cache s') k \<noteq> items (cache fixture_registry) k \<longrightarrow>
      (\<exists>v. items (cache s') k = Some \<lparr>Object = v, Expiration = clock w' + ttl\<rparr>)"
    by (simp only: prod.case) blast
  with changed have "\<exists>v. items (cache s') ''dashboards:id:1-7'' =
      Some \<lparr>Object = v, Expiration = clock w' + ttl\<rparr>"
    by blast
  with changed m show ?thesis by simp
qed

end
